theory Spec2Isabelle
  imports Main
begin

section \<open>Strings as the middleware uses them\<close>

text \<open>
  The middleware in \<^verbatim>\<open>Backend/middleware/security.py\<close> works on Python strings. They are
  modelled as HOL strings, whose characters are the 256 code points of Latin-1 (the
  encoding in which the server hands header bytes to the application).
\<close>

fun startswith :: "string \<Rightarrow> string \<Rightarrow> bool" where
  \<comment> \<open>\<^verbatim>\<open>s.startswith(p)\<close>, with the pattern first.\<close>
  "startswith [] s = True"
| "startswith (p # ps) [] = False"
| "startswith (p # ps) (c # cs) = (p = c \<and> startswith ps cs)"

fun str_in :: "string \<Rightarrow> string \<Rightarrow> bool" where
  \<comment> \<open>Python's \<^verbatim>\<open>p in s\<close> on strings: \<open>p\<close> occurs in \<open>s\<close> as a contiguous run.\<close>
  "str_in p [] = (p = [])"
| "str_in p (c # cs) = (startswith p (c # cs) \<or> str_in p cs)"

definition lower_char :: "char \<Rightarrow> char" where
  \<comment> \<open>\<^verbatim>\<open>str.lower\<close> on one Latin-1 character: A-Z, and the accented capitals
     0xC0-0xDE without the multiplication sign 0xD7, move up by 32, which sets the bit of
     weight 32 (it is clear in all of them).\<close>
  "lower_char c =
     (let n = (of_char c :: nat)
      in if (65 \<le> n \<and> n \<le> 90) \<or> (192 \<le> n \<and> n \<le> 222 \<and> n \<noteq> 215)
         then (case c of Char b0 b1 b2 b3 b4 b5 b6 b7 \<Rightarrow> Char b0 b1 b2 b3 b4 True b6 b7)
         else c)"

definition lower :: "string \<Rightarrow> string" where
  "lower s = map lower_char s"

definition is_space :: "char \<Rightarrow> bool" where
  \<comment> \<open>The Latin-1 characters that \<^verbatim>\<open>str.strip()\<close> removes.\<close>
  "is_space c = ((of_char c :: nat) \<in> {9, 10, 11, 12, 13, 28, 29, 30, 31, 32, 133, 160})"

definition strip :: "string \<Rightarrow> string" where
  "strip s = rev (dropWhile is_space (rev (dropWhile is_space s)))"

definition split_first :: "char \<Rightarrow> string \<Rightarrow> string" where
  \<comment> \<open>\<^verbatim>\<open>s.split(sep)[0]\<close>: the text before the first separator (all of \<open>s\<close> when there
     is none; \<^verbatim>\<open>split\<close> never returns an empty list, so the index cannot fail).\<close>
  "split_first sep s = takeWhile (\<lambda>c. c \<noteq> sep) s"

section \<open>Limit classes\<close>

record limits =
  requests :: int
  window :: nat

definition rate_limits :: "string \<rightharpoonup> limits" where
  \<comment> \<open>\<^verbatim>\<open>self.rate_limits\<close>, set once in \<^verbatim>\<open>__init__\<close>.\<close>
  "rate_limits = map_of
     [(''default'', \<lparr>requests = 100, window = 60\<rparr>),
      (''auth'', \<lparr>requests = 5, window = 60\<rparr>),
      (''api'', \<lparr>requests = 1000, window = 3600\<rparr>)]"

definition limit_type_of :: "string \<Rightarrow> string" where
  \<comment> \<open>The \<^verbatim>\<open>limit_type\<close> variable of \<^verbatim>\<open>_check_rate_limit\<close>, lines 80-84: initialised to
     the default and overwritten by the first branch of the if/elif that matches.\<close>
  "limit_type_of endpoint =
     (let limit_type = ''default''
      in if str_in ''/auth'' endpoint then ''auth''
         else if str_in ''/api'' endpoint then ''api''
         else limit_type)"

section \<open>Exceptions and the \<^verbatim>\<open>int\<close> builtin\<close>

datatype py_exception =
    KeyError | ValueError | ConnectionError | ResponseError | AppError string

definition is_digit :: "char \<Rightarrow> bool" where
  "is_digit c = (48 \<le> (of_char c :: nat) \<and> (of_char c :: nat) \<le> 57)"

definition digit_val :: "char \<Rightarrow> nat" where
  "digit_val c = of_char c - 48"

definition int_space :: "char \<Rightarrow> bool" where
  \<comment> \<open>The Latin-1 characters that \<^verbatim>\<open>int()\<close> skips around a literal (fewer than
     \<^verbatim>\<open>str.strip()\<close> removes: the separators 0x1C-0x1F are not among them).\<close>
  "int_space c = ((of_char c :: nat) \<in> {9, 10, 11, 12, 13, 32, 133, 160})"

fun int_digits :: "nat \<Rightarrow> string \<Rightarrow> nat option" where
  \<comment> \<open>The digits of a decimal literal after its first one, most significant first; a
     single underscore may stand between two digits.\<close>
  "int_digits acc [] = Some acc"
| "int_digits acc [c] = (if is_digit c then Some (10 * acc + digit_val c) else None)"
| "int_digits acc (c # d # ds) =
     (if is_digit c then int_digits (10 * acc + digit_val c) (d # ds)
      else if c = CHR ''_'' \<and> is_digit d then int_digits (10 * acc + digit_val d) ds
      else None)"

definition int_max_str_digits :: nat where
  \<comment> \<open>CPython's default cap on the digits of a decimal literal (3.11 and later).\<close>
  "int_max_str_digits = 4300"

definition py_int :: "string \<Rightarrow> py_exception + int" where
  \<comment> \<open>\<^verbatim>\<open>int(s)\<close> on a Latin-1 string: surrounding space skipped, an optional sign, then
     digits; anything else raises ValueError.\<close>
  "py_int s =
     (let t = rev (dropWhile int_space (rev (dropWhile int_space s)));
          neg = (case t of [] \<Rightarrow> False | c # r \<Rightarrow> c = CHR ''-'');
          u = (case t of [] \<Rightarrow> [] | c # r \<Rightarrow> if c = CHR ''-'' \<or> c = CHR ''+'' then r else t)
      in case u of
           [] \<Rightarrow> Inl ValueError
         | c # cs \<Rightarrow>
             if \<not> is_digit c \<or> int_max_str_digits < length (filter is_digit u)
             then Inl ValueError
             else (case int_digits 0 u of
                     None \<Rightarrow> Inl ValueError
                   | Some n \<Rightarrow> Inr (if neg then - int n else int n)))"

definition digit_char :: "nat \<Rightarrow> char" where
  "digit_char d = ''0123456789'' ! (d mod 10)"

function str_nat :: "nat \<Rightarrow> string" where
  \<comment> \<open>\<^verbatim>\<open>str(n)\<close> for a non-negative integer.\<close>
  "str_nat n = (if n < 10 then [digit_char n] else str_nat (n div 10) @ [digit_char n])"
  by pat_completeness auto
termination
  by (relation "measure (\<lambda>n. n)") auto

declare str_nat.simps [simp del]

section \<open>Requests and responses\<close>

record url =
  scheme :: string
  netloc :: string
  path :: string
  query :: string

text \<open>
  A request is taken as the framework delivers it to the middleware: its URL is text that
  has already been decoded, so reading \<^verbatim>\<open>request.url\<close> does not raise.
\<close>

definition url_str :: "url \<Rightarrow> string" where
  \<comment> \<open>\<^verbatim>\<open>str(request.url)\<close>: the components put back together.\<close>
  "url_str u =
     scheme u @ ''://'' @ netloc u @ path u @ (if query u = [] then [] else ''?'' @ query u)"

record request =
  http_method :: string
  url :: url
  headers :: "(string \<times> string) list"
  client :: "(string \<times> nat) option"

definition headers_get :: "(string \<times> string) list \<Rightarrow> string \<Rightarrow> string option" where
  \<comment> \<open>\<^verbatim>\<open>headers.get(key)\<close> of the framework's header object: the key is lower-cased and
     compared with the stored names (which the server delivers in lower case); the first
     match wins.\<close>
  "headers_get hs key = map_of hs (lower key)"

datatype json = JStr string | JInt int

datatype body = Content "(string \<times> json) list" | Raw string

record response =
  status_code :: nat
  raw_headers :: "(string \<times> string) list"
  body :: body

fun json_value :: "json \<Rightarrow> string" where
  "json_value (JStr s) = ''\"'' @ s @ ''\"''"
| "json_value (JInt i) = (if i < 0 then ''-'' @ str_nat (nat (- i)) else str_nat (nat i))"

fun json_members :: "(string \<times> json) list \<Rightarrow> string" where
  "json_members [] = []"
| "json_members [(k, v)] = ''\"'' @ k @ ''\":'' @ json_value v"
| "json_members ((k, v) # m # ms) = ''\"'' @ k @ ''\":'' @ json_value v @ '','' @ json_members (m # ms)"

definition json_dumps :: "(string \<times> json) list \<Rightarrow> string" where
  \<comment> \<open>The compact rendering \<^verbatim>\<open>JSONResponse\<close> uses (separators "," and ":"). The texts
     the middleware sends hold letters and spaces only, so no character needs an escape.\<close>
  "json_dumps content = ''{'' @ json_members content @ ''}''"

definition JSONResponse :: "nat \<Rightarrow> (string \<times> json) list \<Rightarrow> response" where
  \<comment> \<open>A fresh \<^verbatim>\<open>JSONResponse(status_code=..., content=...)\<close>: its only headers are the
     length and the type of the body.\<close>
  "JSONResponse code content =
     \<lparr>status_code = code,
      raw_headers = [(''content-length'', str_nat (length (json_dumps content))),
                     (''content-type'', ''application/json'')],
      body = Content content\<rparr>"

section \<open>The counter store\<close>

record log_data =
  timestamp :: string
  log_method :: string
  log_path :: string
  client_ip :: string
  user_agent :: string
  log_status_code :: nat
  duration :: int
  content_length :: string

datatype redis_value = IntVal int | LogVal log_data

record redis_entry =
  val :: redis_value
  ttl :: "nat option"

record redis_client =
  db :: "string \<rightharpoonup> redis_entry"
  faults :: "bool list"

text \<open>
  The client is the store it talks to, together with the schedule of the connection's
  failures: each command takes the next flag of \<open>faults\<close>, and fails with a
  ConnectionError without touching the store when the flag is set. An empty schedule is a
  store that answers every command. A value is either an integer in decimal (what
  \<^verbatim>\<open>SETEX key ttl 1\<close> and \<^verbatim>\<open>INCR\<close> write, and what \<^verbatim>\<open>int()\<close> reads back) or the text of
  an audit record, which is no integer.
\<close>

definition attempt :: "redis_client \<Rightarrow> bool \<times> redis_client" where
  "attempt c = (case faults c of [] \<Rightarrow> (True, c) | f # fs \<Rightarrow> (\<not> f, c\<lparr>faults := fs\<rparr>))"

definition redis_get :: "redis_client \<Rightarrow> string \<Rightarrow> (py_exception + redis_value option) \<times> redis_client" where
  "redis_get c key =
     (case attempt c of
        (False, c') \<Rightarrow> (Inl ConnectionError, c')
      | (True, c') \<Rightarrow> (Inr (map_option val (db c' key)), c'))"

definition redis_setex :: "redis_client \<Rightarrow> string \<Rightarrow> nat \<Rightarrow> redis_value \<Rightarrow> (py_exception + unit) \<times> redis_client" where
  "redis_setex c key seconds v =
     (case attempt c of
        (False, c') \<Rightarrow> (Inl ConnectionError, c')
      | (True, c') \<Rightarrow> (Inr (), c'\<lparr>db := (db c')(key \<mapsto> \<lparr>val = v, ttl = Some seconds\<rparr>)\<rparr>))"

definition redis_incr :: "redis_client \<Rightarrow> string \<Rightarrow> (py_exception + int) \<times> redis_client" where
  \<comment> \<open>\<^verbatim>\<open>INCR\<close> keeps the expiry of the key; a missing key counts from zero and gets none;
     a value that is no 64-bit integer, or would leave that range, is an error.\<close>
  "redis_incr c key =
     (case attempt c of
        (False, c') \<Rightarrow> (Inl ConnectionError, c')
      | (True, c') \<Rightarrow>
          (case db c' key of
             None \<Rightarrow> (Inr 1, c'\<lparr>db := (db c')(key \<mapsto> \<lparr>val = IntVal 1, ttl = None\<rparr>)\<rparr>)
           | Some e \<Rightarrow>
               (case val e of
                  LogVal d \<Rightarrow> (Inl ResponseError, c')
                | IntVal n \<Rightarrow>
                    if n < - (2 ^ 63) \<or> 2 ^ 63 - 1 \<le> n then (Inl ResponseError, c')
                    else (Inr (n + 1), c'\<lparr>db := (db c')(key \<mapsto> e\<lparr>val := IntVal (n + 1)\<rparr>)\<rparr>))))"

fun int_of_value :: "redis_value \<Rightarrow> py_exception + int" where
  \<comment> \<open>\<^verbatim>\<open>int(current)\<close> on the bytes the store returned.\<close>
  "int_of_value (IntVal n) = Inr n"
| "int_of_value (LogVal d) = Inl ValueError"

section \<open>The middleware\<close>

text \<open>
  \<^verbatim>\<open>SecurityMiddleware\<close> holds the client of the counter store, or \<^verbatim>\<open>None\<close>, and the
  table \<open>rate_limits\<close>. Each method that touches the store takes the client and returns it
  as the method left it. What the methods write to the process log is not part of the
  model.
\<close>

definition get_client_ip :: "request \<Rightarrow> string" where
  "get_client_ip req =
     (let forwarded_for = headers_get (headers req) ''X-Forwarded-For'';
          real_ip = headers_get (headers req) ''X-Real-IP'';
          peer = (case client req of Some (host, port) \<Rightarrow> host | None \<Rightarrow> ''unknown'')
      in case forwarded_for of
           Some f \<Rightarrow>
             if f \<noteq> [] then strip (split_first CHR '','' f)
             else (case real_ip of Some r \<Rightarrow> if r \<noteq> [] then r else peer | None \<Rightarrow> peer)
         | None \<Rightarrow> (case real_ip of Some r \<Rightarrow> if r \<noteq> [] then r else peer | None \<Rightarrow> peer))"

definition rate_limit_key :: "string \<Rightarrow> string \<Rightarrow> string" where
  \<comment> \<open>\<^verbatim>\<open>f"rate_limit:{client_ip}:{limit_type}"\<close>\<close>
  "rate_limit_key ip limit_type = ''rate_limit:'' @ ip @ '':'' @ limit_type"

definition rate_limit_try :: "redis_client \<Rightarrow> request \<Rightarrow> (py_exception + bool) \<times> redis_client" where
  \<comment> \<open>The \<^verbatim>\<open>try\<close> block of \<^verbatim>\<open>_check_rate_limit\<close>, lines 76-102: \<open>Inl\<close> is an exception
     raised inside it.\<close>
  "rate_limit_try c req =
     (let client_ip = get_client_ip req;
          endpoint = path (url req);
          limit_type = limit_type_of endpoint
      in case rate_limits limit_type of
           None \<Rightarrow> (Inl KeyError, c)
         | Some limits \<Rightarrow>
             (let key = rate_limit_key client_ip limit_type
              in case redis_get c key of
                   (Inl e, c1) \<Rightarrow> (Inl e, c1)
                 | (Inr None, c1) \<Rightarrow>
                     (case redis_setex c1 key (window limits) (IntVal 1) of
                        (Inl e, c2) \<Rightarrow> (Inl e, c2)
                      | (Inr u, c2) \<Rightarrow> (Inr True, c2))
                 | (Inr (Some current), c1) \<Rightarrow>
                     (case int_of_value current of
                        Inl e \<Rightarrow> (Inl e, c1)
                      | Inr current_count \<Rightarrow>
                          if current_count \<ge> requests limits then (Inr False, c1)
                          else (case redis_incr c1 key of
                                  (Inl e, c2) \<Rightarrow> (Inl e, c2)
                                | (Inr n, c2) \<Rightarrow> (Inr True, c2)))))"

definition check_rate_limit :: "redis_client option \<Rightarrow> request \<Rightarrow> bool \<times> redis_client option" where
  \<comment> \<open>\<^verbatim>\<open>_check_rate_limit\<close>: no client, or an exception in the block, admits the request.\<close>
  "check_rate_limit redis req =
     (case redis of
        None \<Rightarrow> (True, None)
      | Some c \<Rightarrow>
          (case rate_limit_try c req of
             (Inl e, c') \<Rightarrow> (True, Some c')
           | (Inr allowed, c') \<Rightarrow> (allowed, Some c')))"

definition suspicious_patterns :: "string list" where
  "suspicious_patterns =
     [''<script'', ''javascript:'', ''data:text/html'',
      ''eval('', ''document.cookie'', ''window.location'']"

definition too_large :: "string option \<Rightarrow> py_exception + bool" where
  \<comment> \<open>The condition of line 113,
     \<^verbatim>\<open>content_length and int(content_length) > 10 * 1024 * 1024\<close>:
     a missing or empty header does not reach \<^verbatim>\<open>int\<close>.\<close>
  "too_large header =
     (case header of
        None \<Rightarrow> Inr False
      | Some cl \<Rightarrow>
          if cl = [] then Inr False
          else (case py_int cl of Inl e \<Rightarrow> Inl e | Inr n \<Rightarrow> Inr (n > 10 * 1024 * 1024)))"

definition suspicious :: "string \<Rightarrow> bool" where
  \<comment> \<open>The inner loop over the patterns: some pattern occurs in the text.\<close>
  "suspicious text = list_ex (\<lambda>pattern. str_in pattern text) suspicious_patterns"

definition header_str :: "string \<times> string \<Rightarrow> string" where
  \<comment> \<open>\<^verbatim>\<open>f"{header_name}:{header_value}".lower()\<close>\<close>
  "header_str h = lower (fst h @ '':'' @ snd h)"

definition validate_try :: "request \<Rightarrow> py_exception + bool" where
  \<comment> \<open>The \<^verbatim>\<open>try\<close> block of \<^verbatim>\<open>_validate_request\<close>, lines 111-137.\<close>
  "validate_try req =
     (case too_large (headers_get (headers req) ''content-length'') of
        Inl e \<Rightarrow> Inl e
      | Inr True \<Rightarrow> Inr False
      | Inr False \<Rightarrow>
          (let url_s = lower (url_str (url req))
           in if suspicious url_s then Inr False
              else if list_ex (\<lambda>h. suspicious (header_str h)) (headers req) then Inr False
              else Inr True))"

definition validate_request :: "request \<Rightarrow> bool" where
  \<comment> \<open>\<^verbatim>\<open>_validate_request\<close>: an exception in the block lets the request pass.\<close>
  "validate_request req = (case validate_try req of Inl e \<Rightarrow> True | Inr ok \<Rightarrow> ok)"

definition security_headers :: "(string \<times> string) list" where
  "security_headers =
     [(''X-Content-Type-Options'', ''nosniff''),
      (''X-Frame-Options'', ''DENY''),
      (''X-XSS-Protection'', ''1; mode=block''),
      (''Strict-Transport-Security'', ''max-age=31536000; includeSubDomains''),
      (''Referrer-Policy'', ''strict-origin-when-cross-origin''),
      (''Content-Security-Policy'',
         ''default-src 'self'; '' @
         ''script-src 'self' 'unsafe-inline'; '' @
         ''style-src 'self' 'unsafe-inline'; '' @
         ''img-src 'self' data: https:; '' @
         ''font-src 'self'; '' @
         ''connect-src 'self' https://*.supabase.co wss://*.supabase.co''),
      (''Permissions-Policy'',
         ''geolocation=(), microphone=(), camera=(), '' @
         ''payment=(), usb=(), magnetometer=(), gyroscope=()''),
      (''Cache-Control'', ''no-store, no-cache, must-revalidate, proxy-revalidate''),
      (''Pragma'', ''no-cache''),
      (''Expires'', ''0'')]"

fun setitem :: "string \<Rightarrow> string \<Rightarrow> (string \<times> string) list \<Rightarrow> (string \<times> string) list" where
  \<comment> \<open>\<^verbatim>\<open>response.headers[key] = value\<close> for a key in lower case: the first entry of that
     name takes the value, later entries of that name go, and a new name is appended.\<close>
  "setitem k v [] = [(k, v)]"
| "setitem k v (h # hs) =
     (if fst h = k then (k, v) # filter (\<lambda>h'. fst h' \<noteq> k) hs else h # setitem k v hs)"

definition headers_setitem :: "(string \<times> string) list \<Rightarrow> string \<times> string \<Rightarrow> (string \<times> string) list" where
  "headers_setitem hs kv = setitem (lower (fst kv)) (snd kv) hs"

definition add_security_headers :: "response \<Rightarrow> response" where
  \<comment> \<open>\<^verbatim>\<open>_add_security_headers\<close>: the loop of lines 168-169 over the table, in its order.\<close>
  "add_security_headers r =
     r\<lparr>raw_headers := foldl headers_setitem (raw_headers r) security_headers\<rparr>"

record clock =
  utcnow :: string
  start_time :: int
  end_time :: int
  log_time :: nat

text \<open>
  The clock is what the four readings of one request return: the text of
  \<^verbatim>\<open>datetime.utcnow().isoformat()\<close>, the two readings of \<^verbatim>\<open>time.time()\<close> whose difference
  is the duration (in milliseconds, the precision the record keeps), and the whole seconds
  of the reading that names the audit key.
\<close>

definition log_request :: "redis_client option \<Rightarrow> request \<Rightarrow> response \<Rightarrow> clock \<Rightarrow> redis_client option" where
  \<comment> \<open>\<^verbatim>\<open>_log_request\<close>: the record goes to the store when there is one; a failure of the
     store is swallowed.\<close>
  "log_request redis req resp clk =
     (let d = \<lparr>timestamp = utcnow clk,
               log_method = http_method req,
               log_path = path (url req),
               client_ip = get_client_ip req,
               user_agent = (case headers_get (headers req) ''User-Agent'' of Some a \<Rightarrow> a | None \<Rightarrow> []),
               log_status_code = status_code resp,
               duration = end_time clk - start_time clk,
               content_length =
                 (case headers_get (raw_headers resp) ''content-length'' of Some l \<Rightarrow> l | None \<Rightarrow> ''0'')\<rparr>
      in case redis of
           None \<Rightarrow> None
         | Some c \<Rightarrow> Some (snd (redis_setex c (''request_log:'' @ str_nat (log_time clk)) 3600 (LogVal d))))"

definition dispatch ::
  "redis_client option \<Rightarrow> request \<Rightarrow> (request \<Rightarrow> py_exception + response) \<Rightarrow> clock
     \<Rightarrow> response \<times> redis_client option" where
  \<comment> \<open>\<^verbatim>\<open>dispatch\<close>, lines 37-68. \<open>call_next\<close> is the rest of the application: it answers or
     raises.\<close>
  "dispatch redis req call_next clk =
     (case check_rate_limit redis req of
        (False, redis1) \<Rightarrow>
          (JSONResponse 429 [(''error'', JStr ''Rate limit exceeded''), (''retry_after'', JInt 60)],
           redis1)
      | (True, redis1) \<Rightarrow>
          if \<not> validate_request req
          then (JSONResponse 400 [(''error'', JStr ''Invalid request format'')], redis1)
          else (case call_next req of
                  Inl e \<Rightarrow> (JSONResponse 500 [(''error'', JStr ''Internal server error'')], redis1)
                | Inr response \<Rightarrow>
                    (let response = add_security_headers response
                     in (response, log_request redis1 req response clk))))"


section \<open>Sample inputs\<close>

text \<open>
  The request the examples below are built from: a GET of a path on
  \<^verbatim>\<open>https://gurukul.example\<close> with the given headers, from the peer 203.0.113.7.
\<close>

abbreviation sample_request :: "string \<Rightarrow> (string \<times> string) list \<Rightarrow> request" where
  "sample_request p hs \<equiv>
     \<lparr>http_method = ''GET'',
      url = \<lparr>scheme = ''https'', netloc = ''gurukul.example'', path = p, query = []\<rparr>,
      headers = hs,
      client = Some (''203.0.113.7'', 40312)\<rparr>"

text \<open>
  A downstream application for the examples: it answers every path with a short plain
  text, and raises on \<^verbatim>\<open>/crash\<close>. The clock is one reading of the four times of a
  request.
\<close>

definition sample_app :: "request \<Rightarrow> py_exception + response" where
  "sample_app req =
     (if path (url req) = ''/crash'' then Inl (AppError ''boom'')
      else Inr \<lparr>status_code = 200,
                raw_headers = [(''content-length'', ''2''), (''content-type'', ''text/plain'')],
                body = Raw ''ok''\<rparr>)"

abbreviation sample_clock :: clock where
  "sample_clock \<equiv>
     \<lparr>utcnow = ''2025-01-01T00:00:00'', start_time = 1735689600000,
      end_time = 1735689600012, log_time = 1735689600\<rparr>"

section \<open>Substring search is what it should be\<close>

lemma startswith_iff: "startswith p s \<longleftrightarrow> (\<exists>ys. s = p @ ys)"
  by (induction p s rule: startswith.induct) auto

lemma str_in_iff: "str_in p s \<longleftrightarrow> (\<exists>xs ys. s = xs @ p @ ys)"
proof (induction s)
  case Nil
  then show ?case by simp
next
  case (Cons c cs)
  show ?case
  proof
    assume "str_in p (c # cs)"
    then consider "startswith p (c # cs)" | "str_in p cs" by auto
    then show "\<exists>xs ys. c # cs = xs @ p @ ys"
    proof cases
      case 1
      then obtain ys where "c # cs = p @ ys" by (auto simp: startswith_iff)
      then have "c # cs = [] @ p @ ys" by simp
      then show ?thesis by blast
    next
      case 2
      then obtain xs ys where "cs = xs @ p @ ys" using Cons.IH by auto
      then have "c # cs = (c # xs) @ p @ ys" by simp
      then show ?thesis by blast
    qed
  next
    assume "\<exists>xs ys. c # cs = xs @ p @ ys"
    then obtain xs ys where e: "c # cs = xs @ p @ ys" by auto
    show "str_in p (c # cs)"
    proof (cases xs)
      case Nil
      with e have "startswith p (c # cs)" by (auto simp: startswith_iff)
      then show ?thesis by simp
    next
      case (Cons x xs')
      with e have "cs = xs' @ p @ ys" by simp
      then have "str_in p cs" using Cons.IH by auto
      then show ?thesis by simp
    qed
  qed
qed

section \<open>The limit class of a path\<close>

lemma rate_limits_total:
  "rate_limits (limit_type_of p) \<noteq> None"
  by (simp add: rate_limits_def limit_type_of_def)

lemma limit_type_of_cases:
  "limit_type_of p = ''auth'' \<or> limit_type_of p = ''api'' \<or> limit_type_of p = ''default''"
  by (simp add: limit_type_of_def)

text \<open>
  Claim C6. The limit class of a request is a function of its path alone: a path in which
  \<^verbatim>\<open>/auth\<close> occurs is of class auth, one in which \<^verbatim>\<open>/api\<close> occurs and \<^verbatim>\<open>/auth\<close> does
  not is of class api, and every other path is of class default. A path with both is of
  class auth, and of that class only.
\<close>

theorem limit_class_by_path:
  "limit_type_of p =
     (if (\<exists>xs ys. p = xs @ ''/auth'' @ ys) then ''auth''
      else if (\<exists>xs ys. p = xs @ ''/api'' @ ys) then ''api''
      else ''default'')"
  unfolding limit_type_of_def str_in_iff by simp

theorem limit_class_by_path_witness:
  "(\<exists>xs ys. ''/api/auth/login'' = xs @ ''/auth'' @ ys)
   \<and> limit_type_of ''/api/auth/login'' = ''auth''
   \<and> limit_type_of ''/api/users'' = ''api''
   \<and> limit_type_of ''/health'' = ''default''"
proof -
  have both: "\<exists>xs ys. ''/api/auth/login'' = xs @ ''/auth'' @ ys"
    by (rule exI [of _ "''/api''"], rule exI [of _ "''/login''"]) simp
  have "limit_type_of ''/api/auth/login'' = ''auth''"
    using limit_class_by_path [of "''/api/auth/login''"] both by simp
  moreover have "limit_type_of ''/api/users'' = ''api''"
    by (simp add: limit_type_of_def)
  moreover have "limit_type_of ''/health'' = ''default''"
    by (simp add: limit_type_of_def)
  ultimately show ?thesis using both by simp
qed

section \<open>The header policy\<close>

lemma filter_setitem_same:
  "filter (\<lambda>h. fst h = k) (setitem k v hs) = [(k, v)]"
  by (induction hs) (auto simp: filter_empty_conv)

lemma filter_setitem_other:
  "k \<noteq> k' \<Longrightarrow> filter (\<lambda>h. fst h = k) (setitem k' v' hs) = filter (\<lambda>h. fst h = k) hs"
proof (induction hs)
  case Nil
  then show ?case by simp
next
  case (Cons h hs)
  have "filter (\<lambda>h. fst h = k) (filter (\<lambda>h'. fst h' \<noteq> k') hs) = filter (\<lambda>h. fst h = k) hs"
    using Cons.prems by (auto intro: filter_cong)
  with Cons show ?case by auto
qed

lemma setitem_fixed:
  "filter (\<lambda>h. fst h = k) hs = [(k, v)] \<Longrightarrow> setitem k v hs = hs"
proof (induction hs)
  case Nil
  then show ?case by simp
next
  case (Cons h hs)
  show ?case
  proof (cases "fst h = k")
    case True
    with Cons.prems have h: "h = (k, v)" and none: "filter (\<lambda>h. fst h = k) hs = []"
      by auto
    from none have "filter (\<lambda>h'. fst h' \<noteq> k) hs = hs"
      by (auto simp: filter_empty_conv filter_id_conv)
    with True h show ?thesis by simp
  next
    case False
    with Cons show ?thesis by simp
  qed
qed

lemma foldl_setitem_snoc:
  "foldl headers_setitem hs (kvs @ [x]) =
   setitem (lower (fst x)) (snd x) (foldl headers_setitem hs kvs)"
  by (simp add: headers_setitem_def)

lemma foldl_setitem_single:
  "distinct (map (\<lambda>kv. lower (fst kv)) kvs) \<Longrightarrow> (k, v) \<in> set kvs \<Longrightarrow>
   filter (\<lambda>h. fst h = lower k) (foldl headers_setitem hs kvs) = [(lower k, v)]"
proof (induction kvs rule: rev_induct)
  case Nil
  then show ?case by simp
next
  case (snoc x kvs)
  show ?case
  proof (cases "x = (k, v)")
    case True
    then show ?thesis by (simp only: foldl_setitem_snoc filter_setitem_same fst_conv snd_conv)
  next
    case False
    with snoc.prems have mem: "(k, v) \<in> set kvs" by simp
    have "lower (fst x) \<notin> (\<lambda>kv. lower (fst kv)) ` set kvs"
      using snoc.prems by simp
    moreover have "lower k \<in> (\<lambda>kv. lower (fst kv)) ` set kvs"
      using mem by force
    ultimately have ne: "lower k \<noteq> lower (fst x)" by metis
    from snoc.prems have "distinct (map (\<lambda>kv. lower (fst kv)) kvs)" by simp
    with snoc.IH mem
    have "filter (\<lambda>h. fst h = lower k) (foldl headers_setitem hs kvs) = [(lower k, v)]"
      by simp
    then show ?thesis
      unfolding foldl_setitem_snoc filter_setitem_other [OF ne] .
  qed
qed

lemma foldl_setitem_fixed:
  "(\<And>k v. (k, v) \<in> set kvs \<Longrightarrow> filter (\<lambda>h. fst h = lower k) hs = [(lower k, v)]) \<Longrightarrow>
   foldl headers_setitem hs kvs = hs"
proof (induction kvs)
  case Nil
  then show ?case by simp
next
  case (Cons x kvs)
  have "filter (\<lambda>h. fst h = lower (fst x)) hs = [(lower (fst x), snd x)]"
    using Cons.prems [of "fst x" "snd x"] by simp
  then have "headers_setitem hs x = hs"
    by (simp add: headers_setitem_def setitem_fixed)
  moreover have "foldl headers_setitem hs kvs = hs"
    using Cons.IH Cons.prems by simp
  ultimately show ?case by simp
qed

lemma security_header_names_distinct:
  "distinct (map (\<lambda>kv. lower (fst kv)) security_headers)"
  by (simp add: security_headers_def lower_def lower_char_def)

lemma map_of_single:
  "filter (\<lambda>h. fst h = k) hs = [(k, v)] \<Longrightarrow> map_of hs k = Some v"
  by (induction hs) (auto split: if_splits)

lemma security_header_set:
  "(k, v) \<in> set security_headers \<Longrightarrow>
   headers_get (raw_headers (add_security_headers r)) k = Some v"
  by (simp add: headers_get_def add_security_headers_def map_of_single
      foldl_setitem_single [OF security_header_names_distinct])

text \<open>
  Claim C9. Applying the header policy to a response that already went through it changes
  nothing: the response is the same, so the two agree on the value of every header name.
  The policy is a function of the response alone, and it is defined on every response.
\<close>

theorem header_policy_idempotent:
  "add_security_headers (add_security_headers r) = add_security_headers r
   \<and> headers_get (raw_headers (add_security_headers (add_security_headers r))) name =
       headers_get (raw_headers (add_security_headers r)) name"
proof -
  let ?hs = "foldl headers_setitem (raw_headers r) security_headers"
  have "foldl headers_setitem ?hs security_headers = ?hs"
    by (rule foldl_setitem_fixed)
      (rule foldl_setitem_single [OF security_header_names_distinct])
  then have "add_security_headers (add_security_headers r) = add_security_headers r"
    by (simp add: add_security_headers_def)
  then show ?thesis by simp
qed

theorem header_policy_idempotent_witness:
  "add_security_headers (add_security_headers
     \<lparr>status_code = 200,
      raw_headers = [(''pragma'', ''public''), (''server'', ''uvicorn''), (''pragma'', ''x'')],
      body = Raw ''ok''\<rparr>) =
   add_security_headers
     \<lparr>status_code = 200,
      raw_headers = [(''pragma'', ''public''), (''server'', ''uvicorn''), (''pragma'', ''x'')],
      body = Raw ''ok''\<rparr>"
  using header_policy_idempotent
    [of "\<lparr>status_code = 200,
      raw_headers = [(''pragma'', ''public''), (''server'', ''uvicorn''), (''pragma'', ''x'')],
      body = Raw ''ok''\<rparr>"]
  by simp

section \<open>Request validation\<close>

lemma suspicious_iff:
  "suspicious t \<longleftrightarrow> (\<exists>p\<in>set suspicious_patterns. \<exists>xs ys. t = xs @ p @ ys)"
  by (simp add: suspicious_def list_ex_iff str_in_iff)

lemma headers_suspicious_iff:
  "list_ex (\<lambda>h. suspicious (header_str h)) hs \<longleftrightarrow>
   (\<exists>h\<in>set hs. \<exists>p\<in>set suspicious_patterns. \<exists>xs ys.
      lower (fst h @ '':'' @ snd h) = xs @ p @ ys)"
  by (simp add: list_ex_iff suspicious_iff header_str_def)

lemma validate_sized:
  "too_large (headers_get (headers req) ''content-length'') = Inr big \<Longrightarrow>
   validate_request req =
     (\<not> big \<and> \<not> suspicious (lower (url_str (url req)))
      \<and> \<not> list_ex (\<lambda>h. suspicious (header_str h)) (headers req))"
  by (cases big) (simp_all add: validate_request_def validate_try_def Let_def)


lemma py_int_empty: "py_int [] = Inl ValueError"
  by (simp add: py_int_def)

lemma too_large_absent: "too_large None = Inr False" "too_large (Some []) = Inr False"
  by (simp_all add: too_large_def)

lemma too_large_int: "py_int s = Inr n \<Longrightarrow> too_large (Some s) = Inr (n > 10 * 1024 * 1024)"
  by (auto simp: too_large_def py_int_empty)


lemmas eval_strings =
  lower_def lower_char_def strip_def split_first_def is_space_def headers_get_def url_str_def
lemmas eval_int =
  py_int_def is_digit_def digit_val_def int_space_def int_max_str_digits_def too_large_def
lemmas eval_validate =
  validate_request_def validate_try_def suspicious_def suspicious_patterns_def header_str_def

lemma pattern_found_iff:
  "(suspicious (lower (url_str (url req)))
      \<or> list_ex (\<lambda>h. suspicious (header_str h)) (headers req)) \<longleftrightarrow>
   ((\<exists>p\<in>set suspicious_patterns. \<exists>xs ys. lower (url_str (url req)) = xs @ p @ ys)
      \<or> (\<exists>h\<in>set (headers req). \<exists>p\<in>set suspicious_patterns. \<exists>xs ys.
            lower (fst h @ '':'' @ snd h) = xs @ p @ ys))"
  by (simp add: suspicious_iff list_ex_iff header_str_def)

lemma too_large_readable:
  "cl = None \<or> cl = Some [] \<or> (cl = Some s \<and> py_int s = Inr n) \<Longrightarrow>
   \<exists>big. too_large cl = Inr big"
  by (auto simp: too_large_int too_large_absent)

lemma too_large_small:
  "cl = None \<or> cl = Some [] \<or> (cl = Some s \<and> py_int s = Inr n \<and> n \<le> 10 * 1024 * 1024) \<Longrightarrow>
   too_large cl = Inr False"
  by (auto simp: too_large_int too_large_absent)







text \<open>
  Claim C7, as stated, fails: a request whose URL holds \<^verbatim>\<open>javascript:\<close> is admitted when
  its content-length header is a text that \<^verbatim>\<open>int()\<close> cannot read, because the exception
  leaves the block before the URL is looked at and the handler of line 139 admits.
\<close>

theorem script_url_admitted:
  "lower (url_str (url (sample_request ''/Javascript:alert'' [(''content-length'', ''ten'')]))) =
     ''https://gurukul.example/'' @ ''javascript:'' @ ''alert''
   \<and> validate_request (sample_request ''/Javascript:alert'' [(''content-length'', ''ten'')])"
  by (simp add: eval_strings eval_int eval_validate)

text \<open>
  Claim C7, amended. For a request whose content-length header is absent, empty or read by
  \<^verbatim>\<open>int()\<close> as a number: if the lower-cased URL, or the lower-cased text
  \<^verbatim>\<open>name:value\<close> of one of its headers, holds one of the six patterns, validation refuses
  it. If moreover the declared length is absent, empty or at most 10 * 1024 * 1024 and no
  pattern occurs in the URL or the headers, validation admits it.
\<close>

theorem validate_patterns:
  "((headers_get (headers req) ''content-length'' = None
      \<or> headers_get (headers req) ''content-length'' = Some []
      \<or> (headers_get (headers req) ''content-length'' = Some s \<and> py_int s = Inr n))
     \<and> ((\<exists>p\<in>set suspicious_patterns. \<exists>xs ys. lower (url_str (url req)) = xs @ p @ ys)
        \<or> (\<exists>h\<in>set (headers req). \<exists>p\<in>set suspicious_patterns. \<exists>xs ys.
              lower (fst h @ '':'' @ snd h) = xs @ p @ ys))
     \<longrightarrow> \<not> validate_request req)
   \<and> ((headers_get (headers req) ''content-length'' = None
      \<or> headers_get (headers req) ''content-length'' = Some []
      \<or> (headers_get (headers req) ''content-length'' = Some s \<and> py_int s = Inr n
          \<and> n \<le> 10 * 1024 * 1024))
     \<and> \<not> ((\<exists>p\<in>set suspicious_patterns. \<exists>xs ys. lower (url_str (url req)) = xs @ p @ ys)
        \<or> (\<exists>h\<in>set (headers req). \<exists>p\<in>set suspicious_patterns. \<exists>xs ys.
              lower (fst h @ '':'' @ snd h) = xs @ p @ ys))
     \<longrightarrow> validate_request req)"
proof (intro conjI impI)
  assume a: "(headers_get (headers req) ''content-length'' = None
      \<or> headers_get (headers req) ''content-length'' = Some []
      \<or> (headers_get (headers req) ''content-length'' = Some s \<and> py_int s = Inr n))
     \<and> ((\<exists>p\<in>set suspicious_patterns. \<exists>xs ys. lower (url_str (url req)) = xs @ p @ ys)
        \<or> (\<exists>h\<in>set (headers req). \<exists>p\<in>set suspicious_patterns. \<exists>xs ys.
              lower (fst h @ '':'' @ snd h) = xs @ p @ ys))"
  from a [THEN conjunct1]
  obtain big where "too_large (headers_get (headers req) ''content-length'') = Inr big"
    using too_large_readable by blast
  then have v: "validate_request req =
      (\<not> big \<and> \<not> suspicious (lower (url_str (url req)))
       \<and> \<not> list_ex (\<lambda>h. suspicious (header_str h)) (headers req))"
    by (rule validate_sized)
  have "suspicious (lower (url_str (url req)))
       \<or> list_ex (\<lambda>h. suspicious (header_str h)) (headers req)"
    by (rule iffD2 [OF pattern_found_iff]) (rule a [THEN conjunct2])
  with v show "\<not> validate_request req" by simp
next
  assume a: "(headers_get (headers req) ''content-length'' = None
      \<or> headers_get (headers req) ''content-length'' = Some []
      \<or> (headers_get (headers req) ''content-length'' = Some s \<and> py_int s = Inr n
          \<and> n \<le> 10 * 1024 * 1024))
     \<and> \<not> ((\<exists>p\<in>set suspicious_patterns. \<exists>xs ys. lower (url_str (url req)) = xs @ p @ ys)
        \<or> (\<exists>h\<in>set (headers req). \<exists>p\<in>set suspicious_patterns. \<exists>xs ys.
              lower (fst h @ '':'' @ snd h) = xs @ p @ ys))"
  have "too_large (headers_get (headers req) ''content-length'') = Inr False"
    by (rule too_large_small) (rule a [THEN conjunct1])
  then have v: "validate_request req =
      (\<not> False \<and> \<not> suspicious (lower (url_str (url req)))
       \<and> \<not> list_ex (\<lambda>h. suspicious (header_str h)) (headers req))"
    by (rule validate_sized)
  have "\<not> (suspicious (lower (url_str (url req)))
       \<or> list_ex (\<lambda>h. suspicious (header_str h)) (headers req))"
    unfolding pattern_found_iff by (rule a [THEN conjunct2])
  with v show "validate_request req" by simp
qed

theorem validate_patterns_witness:
  "headers_get (headers (sample_request ''/Javascript:alert'' [(''content-length'', ''10'')]))
     ''content-length'' = Some ''10''
   \<and> py_int ''10'' = Inr 10
   \<and> lower (url_str (url (sample_request ''/Javascript:alert'' [(''content-length'', ''10'')]))) =
       ''https://gurukul.example/'' @ ''javascript:'' @ ''alert''
   \<and> \<not> validate_request (sample_request ''/Javascript:alert'' [(''content-length'', ''10'')])"
proof -
  let ?r = "sample_request ''/Javascript:alert'' [(''content-length'', ''10'')]"
  have h: "headers_get (headers ?r) ''content-length'' = Some ''10''"
    by (simp add: eval_strings)
  have i: "py_int ''10'' = Inr 10"
    by (simp add: eval_int)
  have u: "lower (url_str (url ?r)) = ''https://gurukul.example/'' @ ''javascript:'' @ ''alert''"
    by (simp add: eval_strings)
  have m: "''javascript:'' \<in> set suspicious_patterns"
    by (simp add: suspicious_patterns_def)
  have p: "\<exists>p\<in>set suspicious_patterns. \<exists>xs ys. lower (url_str (url ?r)) = xs @ p @ ys"
    by (rule bexI [OF _ m], rule exI, rule exI, rule u)
  have "\<not> validate_request ?r"
    by (rule validate_patterns [of ?r "''10''" 10, THEN conjunct1, THEN mp])
      (intro conjI disjI1 disjI2 h i p)
  with h i u show ?thesis by (intro conjI)
qed

section \<open>The client identity\<close>

text \<open>
  Claim C10, as stated, fails: a forwarded-for header that is present and empty is passed
  over, and the identity comes from the next source, not from the (empty) first entry of
  the header.
\<close>

theorem empty_forwarded_for_skipped:
  "headers_get (headers (sample_request ''/lessons''
       [(''x-forwarded-for'', ''''), (''x-real-ip'', ''198.51.100.4'')])) ''X-Forwarded-For'' = Some ''''
   \<and> strip (split_first CHR '','' '''') = ''''
   \<and> get_client_ip (sample_request ''/lessons''
       [(''x-forwarded-for'', ''''), (''x-real-ip'', ''198.51.100.4'')]) = ''198.51.100.4''"
  by (simp add: eval_strings get_client_ip_def)

text \<open>
  Claim C10, amended. The client identity, which names the rate-limit key and is written
  to the audit record, is the first comma-separated entry, stripped of surrounding space,
  of the X-Forwarded-For header when that header is present and not empty; otherwise the
  whole X-Real-IP header when that is present and not empty; otherwise the host of the
  direct peer when it is known; otherwise the text \<^verbatim>\<open>unknown\<close>.
\<close>

theorem client_identity_order:
  "(headers_get (headers req) ''X-Forwarded-For'' = Some f \<and> f \<noteq> [] \<longrightarrow>
      get_client_ip req = strip (split_first CHR '','' f))
   \<and> (headers_get (headers req) ''X-Forwarded-For'' \<in> {None, Some []}
        \<and> headers_get (headers req) ''X-Real-IP'' = Some r \<and> r \<noteq> [] \<longrightarrow>
      get_client_ip req = r)
   \<and> (headers_get (headers req) ''X-Forwarded-For'' \<in> {None, Some []}
        \<and> headers_get (headers req) ''X-Real-IP'' \<in> {None, Some []}
        \<and> client req = Some (host, port) \<longrightarrow>
      get_client_ip req = host)
   \<and> (headers_get (headers req) ''X-Forwarded-For'' \<in> {None, Some []}
        \<and> headers_get (headers req) ''X-Real-IP'' \<in> {None, Some []}
        \<and> client req = None \<longrightarrow>
      get_client_ip req = ''unknown'')"
  by (auto simp: get_client_ip_def)

theorem client_identity_order_witness:
  "get_client_ip (sample_request ''/lessons''
       [(''x-forwarded-for'', '' 198.51.100.4 , 10.0.0.1''), (''x-real-ip'', ''10.0.0.2'')])
     = ''198.51.100.4''
   \<and> get_client_ip (sample_request ''/lessons'' [(''x-real-ip'', ''10.0.0.2'')]) = ''10.0.0.2''
   \<and> get_client_ip (sample_request ''/lessons'' []) = ''203.0.113.7''
   \<and> get_client_ip ((sample_request ''/lessons'' []) \<lparr>client := None\<rparr>) = ''unknown''"
proof -
  let ?a = "sample_request ''/lessons''
       [(''x-forwarded-for'', '' 198.51.100.4 , 10.0.0.1''), (''x-real-ip'', ''10.0.0.2'')]"
  let ?b = "sample_request ''/lessons'' [(''x-real-ip'', ''10.0.0.2'')]"
  let ?c = "sample_request ''/lessons'' []"
  let ?d = "(sample_request ''/lessons'' []) \<lparr>client := None\<rparr>"
  have a: "headers_get (headers ?a) ''X-Forwarded-For'' = Some '' 198.51.100.4 , 10.0.0.1''
      \<and> '' 198.51.100.4 , 10.0.0.1'' \<noteq> []"
    by (simp add: eval_strings)
  have s: "strip (split_first CHR '','' '' 198.51.100.4 , 10.0.0.1'') = ''198.51.100.4''"
    by (simp add: eval_strings)
  have b: "headers_get (headers ?b) ''X-Forwarded-For'' \<in> {None, Some []}
      \<and> headers_get (headers ?b) ''X-Real-IP'' = Some ''10.0.0.2'' \<and> ''10.0.0.2'' \<noteq> []"
    by (simp add: eval_strings)
  have c: "headers_get (headers ?c) ''X-Forwarded-For'' \<in> {None, Some []}
      \<and> headers_get (headers ?c) ''X-Real-IP'' \<in> {None, Some []}
      \<and> client ?c = Some (''203.0.113.7'', 40312)"
    by (simp add: eval_strings)
  have d: "headers_get (headers ?d) ''X-Forwarded-For'' \<in> {None, Some []}
      \<and> headers_get (headers ?d) ''X-Real-IP'' \<in> {None, Some []}
      \<and> client ?d = None"
    by (simp add: eval_strings)
  have "get_client_ip ?a = ''198.51.100.4''"
    using client_identity_order [of ?a "'' 198.51.100.4 , 10.0.0.1''", THEN conjunct1, THEN mp, OF a]
    by (simp only: s)
  moreover have "get_client_ip ?b = ''10.0.0.2''"
    by (rule client_identity_order [of ?b _ "''10.0.0.2''",
          THEN conjunct2, THEN conjunct1, THEN mp, OF b])
  moreover have "get_client_ip ?c = ''203.0.113.7''"
    by (rule client_identity_order [of ?c _ _ "''203.0.113.7''" 40312,
          THEN conjunct2, THEN conjunct2, THEN conjunct1, THEN mp, OF c])
  moreover have "get_client_ip ?d = ''unknown''"
    by (rule client_identity_order [of ?d,
          THEN conjunct2, THEN conjunct2, THEN conjunct2, THEN mp, OF d])
  ultimately show ?thesis by (intro conjI)
qed

section \<open>The rate limiter\<close>

lemma rate_limits_bound:
  "rate_limits t = Some lim \<Longrightarrow> requests lim \<le> 1000"
  by (auto simp: rate_limits_def split: if_splits)

lemma redis_get_up:
  "faults c = [] \<Longrightarrow> redis_get c k = (Inr (map_option val (db c k)), c)"
  by (simp add: redis_get_def attempt_def)

lemma redis_setex_up:
  "faults c = [] \<Longrightarrow>
   redis_setex c k t v = (Inr (), c\<lparr>db := (db c)(k \<mapsto> \<lparr>val = v, ttl = Some t\<rparr>)\<rparr>)"
  by (simp add: redis_setex_def attempt_def)

lemma redis_incr_up:
  "faults c = [] \<Longrightarrow> db c k = Some e \<Longrightarrow> val e = IntVal n \<Longrightarrow> 0 \<le> n \<Longrightarrow> n < 1000 \<Longrightarrow>
   redis_incr c k = (Inr (n + 1), c\<lparr>db := (db c)(k \<mapsto> e\<lparr>val := IntVal (n + 1)\<rparr>)\<rparr>)"
  by (simp add: redis_incr_def attempt_def)

lemma redis_get_down:
  "faults c = True # fs \<Longrightarrow> redis_get c k = (Inl ConnectionError, c\<lparr>faults := fs\<rparr>)"
  by (simp add: redis_get_def attempt_def)

lemma redis_get_then:
  "faults c = False # fs \<Longrightarrow>
   redis_get c k = (Inr (map_option val (db c k)), c\<lparr>faults := fs\<rparr>)"
  by (simp add: redis_get_def attempt_def)

lemma redis_setex_down:
  "faults c = True # fs \<Longrightarrow> redis_setex c k t v = (Inl ConnectionError, c\<lparr>faults := fs\<rparr>)"
  by (simp add: redis_setex_def attempt_def)

lemma redis_incr_down:
  "faults c = True # fs \<Longrightarrow> redis_incr c k = (Inl ConnectionError, c\<lparr>faults := fs\<rparr>)"
  by (simp add: redis_incr_def attempt_def)

lemma check_absent:
  assumes "faults c = []"
    and "rate_limits (limit_type_of (path (url req))) = Some lim"
    and "db c (rate_limit_key (get_client_ip req) (limit_type_of (path (url req)))) = None"
  shows "check_rate_limit (Some c) req =
    (True, Some (c\<lparr>db := (db c)(rate_limit_key (get_client_ip req) (limit_type_of (path (url req)))
        \<mapsto> \<lparr>val = IntVal 1, ttl = Some (window lim)\<rparr>)\<rparr>))"
  using assms
  by (simp add: check_rate_limit_def rate_limit_try_def Let_def redis_get_up redis_setex_up)

lemma check_below:
  assumes "faults c = []"
    and "rate_limits (limit_type_of (path (url req))) = Some lim"
    and "db c (rate_limit_key (get_client_ip req) (limit_type_of (path (url req)))) = Some e"
    and "val e = IntVal n" and "0 \<le> n" and "n < requests lim"
  shows "check_rate_limit (Some c) req =
    (True, Some (c\<lparr>db := (db c)(rate_limit_key (get_client_ip req) (limit_type_of (path (url req)))
        \<mapsto> e\<lparr>val := IntVal (n + 1)\<rparr>)\<rparr>))"
proof -
  from assms(2,6) rate_limits_bound have "n < 1000" by fastforce
  with assms show ?thesis
    by (simp add: check_rate_limit_def rate_limit_try_def Let_def redis_get_up redis_incr_up)
qed

lemma check_closed:
  assumes "faults c = []"
    and "rate_limits (limit_type_of (path (url req))) = Some lim"
    and "db c (rate_limit_key (get_client_ip req) (limit_type_of (path (url req)))) = Some e"
    and "val e = IntVal n" and "requests lim \<le> n"
  shows "check_rate_limit (Some c) req = (False, Some c)"
  using assms
  by (simp add: check_rate_limit_def rate_limit_try_def Let_def redis_get_up)

text \<open>
  Claim C4. With a store that answers every command, the check follows the fixed-window
  count on the key of the identity and the class of the request: when the key is absent it
  is created with the value 1 and the window of the class as its time to live, and the
  request is admitted; when the key holds a count below the limit of the class, the count
  goes up by one (the time to live stays) and the request is admitted; when the count is
  at or above the limit, the request is refused and the store is left as it was.
\<close>

theorem fixed_window_allow:
  assumes "faults c = []"
    and "rate_limits (limit_type_of (path (url req))) = Some lim"
    and "key = rate_limit_key (get_client_ip req) (limit_type_of (path (url req)))"
  shows "(db c key = None \<longrightarrow>
            check_rate_limit (Some c) req =
              (True, Some (c\<lparr>db := (db c)(key \<mapsto> \<lparr>val = IntVal 1, ttl = Some (window lim)\<rparr>)\<rparr>)))
       \<and> (db c key = Some e \<and> val e = IntVal n \<and> 0 \<le> n \<and> n < requests lim \<longrightarrow>
            check_rate_limit (Some c) req =
              (True, Some (c\<lparr>db := (db c)(key \<mapsto> e\<lparr>val := IntVal (n + 1)\<rparr>)\<rparr>)))
       \<and> (db c key = Some e \<and> val e = IntVal n \<and> requests lim \<le> n \<longrightarrow>
            check_rate_limit (Some c) req = (False, Some c))"
  using assms check_absent [of c req lim] check_below [of c req lim e n]
    check_closed [of c req lim e n]
  by simp

lemmas eval_key = rate_limit_key_def get_client_ip_def limit_type_of_def rate_limits_def

theorem fixed_window_allow_witness:
  "check_rate_limit (Some \<lparr>db = map_of [], faults = []\<rparr>) (sample_request ''/auth/login'' []) =
     (True, Some \<lparr>db = (map_of [])(''rate_limit:203.0.113.7:auth''
                      \<mapsto> \<lparr>val = IntVal 1, ttl = Some 60\<rparr>), faults = []\<rparr>)
   \<and> check_rate_limit
       (Some \<lparr>db = map_of [(''rate_limit:203.0.113.7:auth'', \<lparr>val = IntVal 4, ttl = Some 60\<rparr>)],
              faults = []\<rparr>)
       (sample_request ''/auth/login'' []) =
     (True, Some \<lparr>db = (map_of [(''rate_limit:203.0.113.7:auth'', \<lparr>val = IntVal 4, ttl = Some 60\<rparr>)])
                     (''rate_limit:203.0.113.7:auth'' \<mapsto> \<lparr>val = IntVal 5, ttl = Some 60\<rparr>),
                  faults = []\<rparr>)
   \<and> check_rate_limit
       (Some \<lparr>db = map_of [(''rate_limit:203.0.113.7:auth'', \<lparr>val = IntVal 5, ttl = Some 60\<rparr>)],
              faults = []\<rparr>)
       (sample_request ''/auth/login'' []) =
     (False, Some \<lparr>db = map_of [(''rate_limit:203.0.113.7:auth'', \<lparr>val = IntVal 5, ttl = Some 60\<rparr>)],
                   faults = []\<rparr>)"
proof -
  let ?r = "sample_request ''/auth/login'' []"
  let ?k = "''rate_limit:203.0.113.7:auth''"
  let ?e4 = "\<lparr>val = IntVal 4, ttl = Some 60\<rparr>"
  let ?e5 = "\<lparr>val = IntVal 5, ttl = Some 60\<rparr>"
  have lim: "rate_limits (limit_type_of (path (url ?r))) = Some \<lparr>requests = 5, window = 60\<rparr>"
    by (simp add: eval_key str_in.simps)
  have key: "?k = rate_limit_key (get_client_ip ?r) (limit_type_of (path (url ?r)))"
    by (simp add: eval_key eval_strings)
  have "check_rate_limit (Some \<lparr>db = map_of [], faults = []\<rparr>) ?r =
     (True, Some \<lparr>db = (map_of [])(?k \<mapsto> \<lparr>val = IntVal 1, ttl = Some 60\<rparr>), faults = []\<rparr>)"
    using fixed_window_allow [of "\<lparr>db = map_of [], faults = []\<rparr>" ?r _ ?k, OF _ lim key]
    by simp
  moreover have "check_rate_limit (Some \<lparr>db = map_of [(?k, ?e4)], faults = []\<rparr>) ?r =
     (True, Some \<lparr>db = (map_of [(?k, ?e4)])(?k \<mapsto> ?e5), faults = []\<rparr>)"
    using fixed_window_allow [of "\<lparr>db = map_of [(?k, ?e4)], faults = []\<rparr>" ?r _ ?k ?e4 4,
        OF _ lim key]
    by simp
  moreover have "check_rate_limit (Some \<lparr>db = map_of [(?k, ?e5)], faults = []\<rparr>) ?r =
     (False, Some \<lparr>db = map_of [(?k, ?e5)], faults = []\<rparr>)"
    using fixed_window_allow [of "\<lparr>db = map_of [(?k, ?e5)], faults = []\<rparr>" ?r _ ?k ?e5 5,
        OF _ lim key]
    by simp
  ultimately show ?thesis by (intro conjI)
qed

text \<open>
  Claim C5. The check admits the request when no store is configured, and whenever
  something raises inside its block: a command that fails (the read, the creation of the
  key, or the increment) or a stored value that is no integer. It always returns a result:
  no exception leaves it.
\<close>

theorem rate_limiter_fails_open:
  assumes "rate_limits (limit_type_of (path (url req))) = Some lim"
    and "key = rate_limit_key (get_client_ip req) (limit_type_of (path (url req)))"
  shows "check_rate_limit None req = (True, None)
       \<and> (rate_limit_try c req = (Inl x, c') \<longrightarrow> check_rate_limit (Some c) req = (True, Some c'))
       \<and> (faults c = True # fs \<longrightarrow>
            check_rate_limit (Some c) req = (True, Some (c\<lparr>faults := fs\<rparr>)))
       \<and> (faults c = False # True # fs \<and> db c key = None \<longrightarrow>
            check_rate_limit (Some c) req = (True, Some (c\<lparr>faults := fs\<rparr>)))
       \<and> (faults c = False # True # fs \<and> db c key = Some e \<and> val e = IntVal n
            \<and> n < requests lim \<longrightarrow>
            check_rate_limit (Some c) req = (True, Some (c\<lparr>faults := fs\<rparr>)))
       \<and> (db c key = Some e \<and> val e = LogVal d \<longrightarrow> fst (check_rate_limit (Some c) req))"
proof (intro conjI impI)
  show "check_rate_limit None req = (True, None)"
    by (simp add: check_rate_limit_def)
next
  assume "rate_limit_try c req = (Inl x, c')"
  then show "check_rate_limit (Some c) req = (True, Some c')"
    by (simp add: check_rate_limit_def)
next
  assume "faults c = True # fs"
  then show "check_rate_limit (Some c) req = (True, Some (c\<lparr>faults := fs\<rparr>))"
    using assms by (simp add: check_rate_limit_def rate_limit_try_def Let_def redis_get_down)
next
  assume "faults c = False # True # fs \<and> db c key = None"
  then show "check_rate_limit (Some c) req = (True, Some (c\<lparr>faults := fs\<rparr>))"
    using assms
    by (simp add: check_rate_limit_def rate_limit_try_def Let_def redis_get_then redis_setex_down)
next
  assume "faults c = False # True # fs \<and> db c key = Some e \<and> val e = IntVal n
            \<and> n < requests lim"
  then show "check_rate_limit (Some c) req = (True, Some (c\<lparr>faults := fs\<rparr>))"
    using assms
    by (simp add: check_rate_limit_def rate_limit_try_def Let_def redis_get_then redis_incr_down)
next
  assume "db c key = Some e \<and> val e = LogVal d"
  then show "fst (check_rate_limit (Some c) req)"
    using assms
    by (auto simp: check_rate_limit_def rate_limit_try_def Let_def redis_get_def attempt_def
        split: list.splits bool.splits)
qed

theorem rate_limiter_fails_open_witness:
  "check_rate_limit None (sample_request ''/auth/login'' []) = (True, None)
   \<and> check_rate_limit
       (Some \<lparr>db = map_of [(''rate_limit:203.0.113.7:auth'', \<lparr>val = IntVal 5, ttl = Some 60\<rparr>)],
              faults = [True]\<rparr>)
       (sample_request ''/auth/login'' []) =
     (True, Some \<lparr>db = map_of [(''rate_limit:203.0.113.7:auth'', \<lparr>val = IntVal 5, ttl = Some 60\<rparr>)],
                  faults = []\<rparr>)
   \<and> check_rate_limit (Some \<lparr>db = map_of [], faults = [False, True]\<rparr>)
       (sample_request ''/auth/login'' []) =
     (True, Some \<lparr>db = map_of [], faults = []\<rparr>)
   \<and> check_rate_limit
       (Some \<lparr>db = map_of [(''rate_limit:203.0.113.7:auth'', \<lparr>val = IntVal 4, ttl = Some 60\<rparr>)],
              faults = [False, True]\<rparr>)
       (sample_request ''/auth/login'' []) =
     (True, Some \<lparr>db = map_of [(''rate_limit:203.0.113.7:auth'', \<lparr>val = IntVal 4, ttl = Some 60\<rparr>)],
                  faults = []\<rparr>)"
proof -
  let ?r = "sample_request ''/auth/login'' []"
  let ?k = "''rate_limit:203.0.113.7:auth''"
  let ?e4 = "\<lparr>val = IntVal 4, ttl = Some 60\<rparr>"
  let ?e5 = "\<lparr>val = IntVal 5, ttl = Some 60\<rparr>"
  have lim: "rate_limits (limit_type_of (path (url ?r))) = Some \<lparr>requests = 5, window = 60\<rparr>"
    by (simp add: eval_key str_in.simps)
  have key: "?k = rate_limit_key (get_client_ip ?r) (limit_type_of (path (url ?r)))"
    by (simp add: eval_key eval_strings)
  note fo = rate_limiter_fails_open [OF lim key]
  have "check_rate_limit None ?r = (True, None)"
    by (rule fo [THEN conjunct1])
  moreover have "check_rate_limit (Some \<lparr>db = map_of [(?k, ?e5)], faults = [True]\<rparr>) ?r =
      (True, Some \<lparr>db = map_of [(?k, ?e5)], faults = []\<rparr>)"
    using fo [where c = "\<lparr>db = map_of [(?k, ?e5)], faults = [True]\<rparr>" and fs = "[]",
        THEN conjunct2, THEN conjunct2, THEN conjunct1]
    by simp
  moreover have "check_rate_limit (Some \<lparr>db = map_of [], faults = [False, True]\<rparr>) ?r =
      (True, Some \<lparr>db = map_of [], faults = []\<rparr>)"
    using fo [where c = "\<lparr>db = map_of [], faults = [False, True]\<rparr>" and fs = "[]",
        THEN conjunct2, THEN conjunct2, THEN conjunct2, THEN conjunct1]
    by simp
  moreover have "check_rate_limit (Some \<lparr>db = map_of [(?k, ?e4)], faults = [False, True]\<rparr>) ?r =
      (True, Some \<lparr>db = map_of [(?k, ?e4)], faults = []\<rparr>)"
    using fo [where c = "\<lparr>db = map_of [(?k, ?e4)], faults = [False, True]\<rparr>" and fs = "[]"
        and e = ?e4 and n = 4,
        THEN conjunct2, THEN conjunct2, THEN conjunct2, THEN conjunct2, THEN conjunct1]
    by simp
  ultimately show ?thesis by (intro conjI)
qed

section \<open>The pipeline\<close>

lemma dispatch_rejected:
  "\<not> fst (check_rate_limit redis req) \<Longrightarrow>
   dispatch redis req call_next clk =
     (JSONResponse 429 [(''error'', JStr ''Rate limit exceeded''), (''retry_after'', JInt 60)],
      snd (check_rate_limit redis req))"
  by (cases "check_rate_limit redis req") (simp add: dispatch_def)

lemma dispatch_invalid:
  "fst (check_rate_limit redis req) \<Longrightarrow> \<not> validate_request req \<Longrightarrow>
   dispatch redis req call_next clk =
     (JSONResponse 400 [(''error'', JStr ''Invalid request format'')],
      snd (check_rate_limit redis req))"
  by (cases "check_rate_limit redis req") (simp add: dispatch_def)

lemma dispatch_fault:
  "fst (check_rate_limit redis req) \<Longrightarrow> validate_request req \<Longrightarrow> call_next req = Inl x \<Longrightarrow>
   dispatch redis req call_next clk =
     (JSONResponse 500 [(''error'', JStr ''Internal server error'')],
      snd (check_rate_limit redis req))"
  by (cases "check_rate_limit redis req") (simp add: dispatch_def)

lemma dispatch_handled:
  "fst (check_rate_limit redis req) \<Longrightarrow> validate_request req \<Longrightarrow> call_next req = Inr r \<Longrightarrow>
   dispatch redis req call_next clk =
     (add_security_headers r,
      log_request (snd (check_rate_limit redis req)) req (add_security_headers r) clk)"
  by (cases "check_rate_limit redis req") (simp add: dispatch_def Let_def)

lemma json_response_no_policy_header:
  "(k, v) \<in> set security_headers \<Longrightarrow>
   headers_get (raw_headers (JSONResponse code content)) k = None"
  by (auto simp: security_headers_def JSONResponse_def headers_get_def lower_def lower_char_def)

lemma frame_options_in_policy: "(''X-Frame-Options'', ''DENY'') \<in> set security_headers"
  by (simp add: security_headers_def)

lemma content_type_options_in_policy:
  "(''X-Content-Type-Options'', ''nosniff'') \<in> set security_headers"
  by (simp add: security_headers_def)


text \<open>
  Claim C1, as stated, fails: the rate limiter runs first. A request that fails validation
  gets the 400 response after its counter was read and, here, created.
\<close>

theorem invalid_request_is_counted:
  "\<not> validate_request (sample_request ''/lessons/<script>'' [])
   \<and> dispatch (Some \<lparr>db = map_of [], faults = []\<rparr>) (sample_request ''/lessons/<script>'' [])
       sample_app sample_clock =
     (JSONResponse 400 [(''error'', JStr ''Invalid request format'')],
      Some \<lparr>db = (map_of [])(''rate_limit:203.0.113.7:default''
                \<mapsto> \<lparr>val = IntVal 1, ttl = Some 60\<rparr>), faults = []\<rparr>)"
proof -
  let ?r = "sample_request ''/lessons/<script>'' []"
  let ?c = "\<lparr>db = map_of [], faults = []\<rparr>"
  have v: "\<not> validate_request ?r"
    by (simp add: eval_strings eval_int eval_validate)
  have lim: "rate_limits (limit_type_of (path (url ?r))) = Some \<lparr>requests = 100, window = 60\<rparr>"
    by (simp add: eval_key str_in.simps)
  have key: "rate_limit_key (get_client_ip ?r) (limit_type_of (path (url ?r))) =
      ''rate_limit:203.0.113.7:default''"
    by (simp add: eval_key eval_strings)
  have "check_rate_limit (Some ?c) ?r =
      (True, Some \<lparr>db = (map_of [])(''rate_limit:203.0.113.7:default''
                \<mapsto> \<lparr>val = IntVal 1, ttl = Some 60\<rparr>), faults = []\<rparr>)"
    using check_absent [of ?c ?r, OF _ lim, unfolded key] by simp
  with v show ?thesis by (simp add: dispatch_invalid)
qed

text \<open>
  Claim C1, amended. The pipeline runs the rate limiter before the validator. A request
  the rate limiter refuses gets the 429 response whether it is valid or not; a request
  that fails validation gets the 400 response only after the rate limiter has admitted it,
  with the store as the rate check left it: with a store that answers and no counter yet,
  the counter of the request has been created.
\<close>

theorem rate_limit_precedes_validation:
  "(\<not> fst (check_rate_limit redis req) \<longrightarrow>
      dispatch redis req call_next clk =
        (JSONResponse 429 [(''error'', JStr ''Rate limit exceeded''), (''retry_after'', JInt 60)],
         snd (check_rate_limit redis req)))
   \<and> (fst (check_rate_limit redis req) \<and> \<not> validate_request req \<longrightarrow>
      dispatch redis req call_next clk =
        (JSONResponse 400 [(''error'', JStr ''Invalid request format'')],
         snd (check_rate_limit redis req)))
   \<and> (\<not> validate_request req \<and> redis = Some c \<and> faults c = []
        \<and> rate_limits (limit_type_of (path (url req))) = Some lim
        \<and> db c (rate_limit_key (get_client_ip req) (limit_type_of (path (url req)))) = None \<longrightarrow>
      dispatch redis req call_next clk =
        (JSONResponse 400 [(''error'', JStr ''Invalid request format'')],
         Some (c\<lparr>db := (db c)(rate_limit_key (get_client_ip req) (limit_type_of (path (url req)))
                  \<mapsto> \<lparr>val = IntVal 1, ttl = Some (window lim)\<rparr>)\<rparr>)))"
  by (auto simp: dispatch_rejected dispatch_invalid check_absent)


theorem rate_limit_precedes_validation_witness:
  "\<not> validate_request (sample_request ''/lessons/<script>'' [])
   \<and> dispatch
       (Some \<lparr>db = map_of [(''rate_limit:203.0.113.7:default'', \<lparr>val = IntVal 100, ttl = Some 60\<rparr>)],
              faults = []\<rparr>)
       (sample_request ''/lessons/<script>'' []) sample_app sample_clock =
     (JSONResponse 429 [(''error'', JStr ''Rate limit exceeded''), (''retry_after'', JInt 60)],
      Some \<lparr>db = map_of [(''rate_limit:203.0.113.7:default'', \<lparr>val = IntVal 100, ttl = Some 60\<rparr>)],
            faults = []\<rparr>)
   \<and> dispatch None (sample_request ''/lessons/<script>'' []) sample_app sample_clock =
     (JSONResponse 400 [(''error'', JStr ''Invalid request format'')], None)"
proof -
  let ?r = "sample_request ''/lessons/<script>'' []"
  let ?e = "\<lparr>val = IntVal 100, ttl = Some 60\<rparr>"
  let ?c = "\<lparr>db = map_of [(''rate_limit:203.0.113.7:default'', ?e)], faults = []\<rparr>"
  have v: "\<not> validate_request ?r"
    by (simp add: eval_strings eval_int eval_validate)
  have lim: "rate_limits (limit_type_of (path (url ?r))) = Some \<lparr>requests = 100, window = 60\<rparr>"
    by (simp add: eval_key str_in.simps)
  have key: "rate_limit_key (get_client_ip ?r) (limit_type_of (path (url ?r))) =
      ''rate_limit:203.0.113.7:default''"
    by (simp add: eval_key eval_strings)
  have full: "check_rate_limit (Some ?c) ?r = (False, Some ?c)"
    using check_closed [of ?c ?r _ ?e 100, OF _ lim, unfolded key] by simp
  have none: "check_rate_limit None ?r = (True, None)"
    by (simp add: check_rate_limit_def)
  have "dispatch (Some ?c) ?r sample_app sample_clock =
      (JSONResponse 429 [(''error'', JStr ''Rate limit exceeded''), (''retry_after'', JInt 60)],
       Some ?c)"
    using rate_limit_precedes_validation [of "Some ?c" ?r sample_app sample_clock, THEN conjunct1]
      full
    by simp
  moreover have "dispatch None ?r sample_app sample_clock =
      (JSONResponse 400 [(''error'', JStr ''Invalid request format'')], None)"
    using rate_limit_precedes_validation [of None ?r sample_app sample_clock,
        THEN conjunct2, THEN conjunct1] v none
    by simp
  ultimately show ?thesis using v by (intro conjI)
qed


text \<open>
  Claim C2, as stated, fails: the 400 response of a request that fails validation carries
  neither \<^verbatim>\<open>X-Frame-Options\<close> nor \<^verbatim>\<open>X-Content-Type-Options\<close>.
\<close>

theorem rejection_lacks_security_headers:
  "status_code (fst (dispatch None (sample_request ''/lessons/<script>'' []) sample_app sample_clock))
     = 400
   \<and> headers_get (raw_headers (fst (dispatch None (sample_request ''/lessons/<script>'' [])
         sample_app sample_clock))) ''X-Frame-Options'' = None
   \<and> headers_get (raw_headers (fst (dispatch None (sample_request ''/lessons/<script>'' [])
         sample_app sample_clock))) ''X-Content-Type-Options'' = None"
proof -
  let ?r = "sample_request ''/lessons/<script>'' []"
  have v: "\<not> validate_request ?r"
    by (simp add: eval_strings eval_int eval_validate)
  have a: "fst (check_rate_limit None ?r)"
    by (simp add: check_rate_limit_def)
  have "dispatch None ?r sample_app sample_clock =
      (JSONResponse 400 [(''error'', JStr ''Invalid request format'')], snd (check_rate_limit None ?r))"
    using a v by (rule dispatch_invalid)
  then have d: "fst (dispatch None ?r sample_app sample_clock) =
      JSONResponse 400 [(''error'', JStr ''Invalid request format'')]"
    by simp
  have "status_code (JSONResponse 400 [(''error'', JStr ''Invalid request format'')]) = 400"
    by (simp add: JSONResponse_def)
  then show ?thesis
    unfolding d
    by (intro conjI json_response_no_policy_header [OF frame_options_in_policy]
        json_response_no_policy_header [OF content_type_options_in_policy])
qed

text \<open>
  Claim C2, amended. A response that comes back from the downstream handler leaves the
  pipeline with every header of the fixed security set at its policy value, among them
  \<^verbatim>\<open>X-Frame-Options: DENY\<close> and \<^verbatim>\<open>X-Content-Type-Options: nosniff\<close>. The 429, 400 and 500
  responses the pipeline builds itself carry none of the headers of that set.
\<close>

theorem security_headers_after_handler:
  "(fst (check_rate_limit redis req) \<and> validate_request req \<and> call_next req = Inr r \<longrightarrow>
      fst (dispatch redis req call_next clk) = add_security_headers r
      \<and> (\<forall>kv\<in>set security_headers.
            headers_get (raw_headers (fst (dispatch redis req call_next clk))) (fst kv) = Some (snd kv))
      \<and> headers_get (raw_headers (fst (dispatch redis req call_next clk))) ''X-Frame-Options''
          = Some ''DENY''
      \<and> headers_get (raw_headers (fst (dispatch redis req call_next clk))) ''X-Content-Type-Options''
          = Some ''nosniff'')
   \<and> (\<not> fst (check_rate_limit redis req) \<or> \<not> validate_request req \<or> call_next req = Inl x \<longrightarrow>
      (\<forall>kv\<in>set security_headers.
         headers_get (raw_headers (fst (dispatch redis req call_next clk))) (fst kv) = None))"
proof (intro conjI impI)
  assume a: "fst (check_rate_limit redis req) \<and> validate_request req \<and> call_next req = Inr r"
  then have d: "fst (dispatch redis req call_next clk) = add_security_headers r"
    by (simp add: dispatch_handled)
  show "fst (dispatch redis req call_next clk) = add_security_headers r" by (rule d)
  show "\<forall>kv\<in>set security_headers.
      headers_get (raw_headers (fst (dispatch redis req call_next clk))) (fst kv) = Some (snd kv)"
    unfolding d by (auto simp: security_header_set)
  show "headers_get (raw_headers (fst (dispatch redis req call_next clk))) ''X-Frame-Options''
      = Some ''DENY''"
    unfolding d by (rule security_header_set [OF frame_options_in_policy])
  show "headers_get (raw_headers (fst (dispatch redis req call_next clk))) ''X-Content-Type-Options''
      = Some ''nosniff''"
    unfolding d by (rule security_header_set [OF content_type_options_in_policy])
next
  assume a: "\<not> fst (check_rate_limit redis req) \<or> \<not> validate_request req \<or> call_next req = Inl x"
  have "\<exists>code content. fst (dispatch redis req call_next clk) = JSONResponse code content"
  proof (cases "fst (check_rate_limit redis req)")
    case False
    then show ?thesis by (auto simp: dispatch_rejected)
  next
    case admitted: True
    show ?thesis
    proof (cases "validate_request req")
      case False
      with admitted show ?thesis by (auto simp: dispatch_invalid)
    next
      case True
      with admitted a have "call_next req = Inl x" by simp
      with admitted True show ?thesis by (auto simp: dispatch_fault)
    qed
  qed
  then obtain code content
    where "fst (dispatch redis req call_next clk) = JSONResponse code content" by blast
  then show "\<forall>kv\<in>set security_headers.
      headers_get (raw_headers (fst (dispatch redis req call_next clk))) (fst kv) = None"
    by (auto simp: json_response_no_policy_header)
qed

theorem security_headers_after_handler_witness:
  "headers_get (raw_headers (fst (dispatch None (sample_request ''/lessons'' [])
       sample_app sample_clock))) ''X-Frame-Options'' = Some ''DENY''
   \<and> headers_get (raw_headers (fst (dispatch None (sample_request ''/lessons'' [])
       sample_app sample_clock))) ''X-Content-Type-Options'' = Some ''nosniff''
   \<and> sample_app (sample_request ''/crash'' []) = Inl (AppError ''boom'')
   \<and> headers_get (raw_headers (fst (dispatch None (sample_request ''/crash'' [])
       sample_app sample_clock))) ''X-Frame-Options'' = None"
proof -
  let ?r = "sample_request ''/lessons'' []"
  let ?x = "sample_request ''/crash'' []"
  let ?ok = "\<lparr>status_code = 200,
      raw_headers = [(''content-length'', ''2''), (''content-type'', ''text/plain'')],
      body = Raw ''ok''\<rparr>"
  have a: "fst (check_rate_limit None ?r)"
    by (simp add: check_rate_limit_def)
  have v: "validate_request ?r"
    by (simp add: eval_strings eval_int eval_validate)
  have h: "sample_app ?r = Inr ?ok"
    by (simp add: sample_app_def)
  have x: "sample_app ?x = Inl (AppError ''boom'')"
    by (simp add: sample_app_def)
  note good = security_headers_after_handler [of None ?r sample_app ?ok sample_clock,
      THEN conjunct1, THEN mp, OF conjI [OF a conjI [OF v h]]]
  note bad = security_headers_after_handler [of None ?x sample_app _ sample_clock "AppError ''boom''",
      THEN conjunct2, THEN mp, OF disjI2 [OF disjI2 [OF x]],
      THEN bspec, OF frame_options_in_policy]
  have b: "headers_get (raw_headers (fst (dispatch None ?x sample_app sample_clock)))
      ''X-Frame-Options'' = None"
    using bad by simp
  note f = good [THEN conjunct2, THEN conjunct2, THEN conjunct1]
  note n = good [THEN conjunct2, THEN conjunct2, THEN conjunct2]
  from f n x b show ?thesis by (intro conjI)
qed


text \<open>
  Claim C3, as stated, fails: a request of class api that the rate limiter refuses is told
  to retry after 60 seconds, while the window of its class is 3600.
\<close>

theorem api_retry_after_is_sixty:
  "limit_type_of (path (url (sample_request ''/api/lessons'' []))) = ''api''
   \<and> rate_limits ''api'' = Some \<lparr>requests = 1000, window = 3600\<rparr>
   \<and> status_code (fst (dispatch
         (Some \<lparr>db = map_of [(''rate_limit:203.0.113.7:api'', \<lparr>val = IntVal 1000, ttl = Some 3600\<rparr>)],
                faults = []\<rparr>)
         (sample_request ''/api/lessons'' []) sample_app sample_clock)) = 429
   \<and> body (fst (dispatch
         (Some \<lparr>db = map_of [(''rate_limit:203.0.113.7:api'', \<lparr>val = IntVal 1000, ttl = Some 3600\<rparr>)],
                faults = []\<rparr>)
         (sample_request ''/api/lessons'' []) sample_app sample_clock)) =
       Content [(''error'', JStr ''Rate limit exceeded''), (''retry_after'', JInt 60)]"
proof -
  let ?r = "sample_request ''/api/lessons'' []"
  let ?e = "\<lparr>val = IntVal 1000, ttl = Some 3600\<rparr>"
  let ?c = "\<lparr>db = map_of [(''rate_limit:203.0.113.7:api'', ?e)], faults = []\<rparr>"
  have t: "limit_type_of (path (url ?r)) = ''api''"
    by (simp add: eval_key str_in.simps)
  have l: "rate_limits ''api'' = Some \<lparr>requests = 1000, window = 3600\<rparr>"
    by (simp add: rate_limits_def)
  have lim: "rate_limits (limit_type_of (path (url ?r))) = Some \<lparr>requests = 1000, window = 3600\<rparr>"
    by (simp add: eval_key str_in.simps)
  have key: "rate_limit_key (get_client_ip ?r) (limit_type_of (path (url ?r))) =
      ''rate_limit:203.0.113.7:api''"
    by (simp add: eval_key eval_strings)
  have full: "check_rate_limit (Some ?c) ?r = (False, Some ?c)"
    using check_closed [of ?c ?r _ ?e 1000, OF _ lim, unfolded key] by simp
  then have "\<not> fst (check_rate_limit (Some ?c) ?r)" by simp
  then have d: "fst (dispatch (Some ?c) ?r sample_app sample_clock) =
      JSONResponse 429 [(''error'', JStr ''Rate limit exceeded''), (''retry_after'', JInt 60)]"
    by (simp add: dispatch_rejected)
  show ?thesis
    unfolding d using t l by (simp add: JSONResponse_def)
qed

text \<open>
  Claim C3, amended. The 429 response of a request the rate limiter refuses holds
  \<^verbatim>\<open>retry_after\<close> with the value 60, whatever the class of the request. That is the
  window of the classes default and auth; the window of the class api is 3600.
\<close>

theorem retry_after_constant:
  "(\<not> fst (check_rate_limit redis req) \<longrightarrow>
      status_code (fst (dispatch redis req call_next clk)) = 429
      \<and> body (fst (dispatch redis req call_next clk)) =
          Content [(''error'', JStr ''Rate limit exceeded''), (''retry_after'', JInt 60)])
   \<and> (limit_type_of (path (url req)) \<noteq> ''api'' \<longrightarrow>
        map_option window (rate_limits (limit_type_of (path (url req)))) = Some 60)
   \<and> (limit_type_of (path (url req)) = ''api'' \<longrightarrow>
        map_option window (rate_limits (limit_type_of (path (url req)))) = Some 3600)"
proof (intro conjI impI)
  assume "\<not> fst (check_rate_limit redis req)"
  then have d: "fst (dispatch redis req call_next clk) =
      JSONResponse 429 [(''error'', JStr ''Rate limit exceeded''), (''retry_after'', JInt 60)]"
    by (simp add: dispatch_rejected)
  show "status_code (fst (dispatch redis req call_next clk)) = 429"
    unfolding d by (simp add: JSONResponse_def)
  show "body (fst (dispatch redis req call_next clk)) =
      Content [(''error'', JStr ''Rate limit exceeded''), (''retry_after'', JInt 60)]"
    unfolding d by (simp add: JSONResponse_def)
next
  assume "limit_type_of (path (url req)) \<noteq> ''api''"
  then show "map_option window (rate_limits (limit_type_of (path (url req)))) = Some 60"
    using limit_type_of_cases [of "path (url req)"] by (auto simp: rate_limits_def)
next
  assume "limit_type_of (path (url req)) = ''api''"
  then show "map_option window (rate_limits (limit_type_of (path (url req)))) = Some 3600"
    by (simp add: rate_limits_def)
qed

theorem retry_after_constant_witness:
  "map_option window (rate_limits (limit_type_of (path (url (sample_request ''/auth/login'' [])))))
     = Some 60
   \<and> body (fst (dispatch
         (Some \<lparr>db = map_of [(''rate_limit:203.0.113.7:auth'', \<lparr>val = IntVal 5, ttl = Some 60\<rparr>)],
                faults = []\<rparr>)
         (sample_request ''/auth/login'' []) sample_app sample_clock)) =
       Content [(''error'', JStr ''Rate limit exceeded''), (''retry_after'', JInt 60)]"
proof -
  let ?r = "sample_request ''/auth/login'' []"
  let ?e = "\<lparr>val = IntVal 5, ttl = Some 60\<rparr>"
  let ?c = "\<lparr>db = map_of [(''rate_limit:203.0.113.7:auth'', ?e)], faults = []\<rparr>"
  have t: "limit_type_of (path (url ?r)) \<noteq> ''api''"
    by (simp add: eval_key str_in.simps)
  have lim: "rate_limits (limit_type_of (path (url ?r))) = Some \<lparr>requests = 5, window = 60\<rparr>"
    by (simp add: eval_key str_in.simps)
  have key: "rate_limit_key (get_client_ip ?r) (limit_type_of (path (url ?r))) =
      ''rate_limit:203.0.113.7:auth''"
    by (simp add: eval_key eval_strings)
  have full: "check_rate_limit (Some ?c) ?r = (False, Some ?c)"
    using check_closed [of ?c ?r _ ?e 5, OF _ lim, unfolded key] by simp
  then have rej: "\<not> fst (check_rate_limit (Some ?c) ?r)" by simp
  note w = retry_after_constant [of "Some ?c" ?r sample_app sample_clock]
  from w [THEN conjunct2, THEN conjunct1, THEN mp, OF t]
    w [THEN conjunct1, THEN mp, OF rej, THEN conjunct2]
  show ?thesis by (intro conjI)
qed

end
